theory Spec2Isabelle
  imports Main
begin

section \<open>The signal emitter and its controller (src/index.ts)\<close>

text \<open>
  Signal names are values of type \<open>'k\<close>, listener function objects are identified by
  values of type \<open>'l\<close> (JavaScript compares them by identity), argument values have type
  \<open>'a\<close> (an argument tuple is a list) and thrown values have type \<open>'e\<close>.

  A listener body is foreign code. It is modelled by its outcome: \<open>beh l args\<close> is
  \<open>None\<close> when listener \<open>l\<close>, called with \<open>args\<close>, returns normally and \<open>Some e\<close> when
  it throws \<open>e\<close>. Listener bodies are taken not to call back into the emitter or the
  controller. Every invocation is appended to the log \<open>calls\<close> of the emitter state, which
  is what makes "the listener was invoked" a statement about the state.
\<close>

type_synonym ('l, 'a, 'e) behaviour = "'l \<Rightarrow> 'a list \<Rightarrow> 'e option"

text \<open>
  \<open>SignalListenerOptions\<close>. The \<open>signal\<close> option only registers a callback on a platform
  \<open>AbortSignal\<close>, which changes nothing of the emitter during \<open>on\<close>; when the abort fires
  later, the callback is one call of \<open>off\<close>. The parameter \<open>options\<close> of \<open>on\<close> may be
  absent, hence \<open>SignalListenerOptions option\<close> below.
\<close>

record SignalListenerOptions =
  once :: bool

text \<open>
  The state of a \<open>SignalEmitter\<close>:
  \<^item> \<open>listeners\<close> is \<open>#listeners\<close>, a \<open>Map\<close> from signal names to \<open>Set\<close>s of listeners. A
    JavaScript \<open>Set\<close> iterates in insertion order and holds no duplicates, so it is a list
    here, kept without duplicates by \<open>Set_add\<close>;
  \<^item> \<open>lastArgs\<close> is \<open>#lastArgs\<close>: undefined (\<open>None\<close>) unless the emitter is in immediate
    mode;
  \<^item> \<open>onceFlag l\<close> is the property \<open>listener[ONCE_SYMBOL]\<close> of the function object \<open>l\<close>:
    one flag for each listener object, whatever signals it is subscribed to;
  \<^item> \<open>calls\<close> is the log of listener invocations, oldest first.
\<close>

record ('k, 'l, 'a) signal_emitter =
  listeners :: "'k \<rightharpoonup> 'l list"
  lastArgs :: "('k \<rightharpoonup> 'a list) option"
  onceFlag :: "'l \<Rightarrow> bool"
  calls :: "('l \<times> 'a list) list"

definition Set_add :: "'l \<Rightarrow> 'l list \<Rightarrow> 'l list" where
  "Set_add l ls = (if l \<in> set ls then ls else ls @ [l])"

definition Set_delete :: "'l \<Rightarrow> 'l list \<Rightarrow> 'l list" where
  "Set_delete l ls = removeAll l ls"

text \<open>The constructor: \<open>#lastArgs\<close> is a map only when \<open>immediate\<close> is true.\<close>

definition SignalEmitter :: "bool \<Rightarrow> ('k, 'l, 'a) signal_emitter" where
  "SignalEmitter immediate =
     \<lparr> listeners = Map.empty,
       lastArgs = (if immediate then Some Map.empty else None),
       onceFlag = (\<lambda>_. False),
       calls = [] \<rparr>"

text \<open>The listeners of a signal, the empty list when the map has no entry for it.\<close>

definition registered :: "('k, 'l, 'a) signal_emitter \<Rightarrow> 'k \<Rightarrow> 'l list" where
  "registered s k = (case listeners s k of None \<Rightarrow> [] | Some ls \<Rightarrow> ls)"

text \<open>Calling a listener: its outcome, and the call logged.\<close>

definition invoke ::
  "('l, 'a, 'e) behaviour \<Rightarrow> 'l \<Rightarrow> 'a list \<Rightarrow> ('k, 'l, 'a) signal_emitter
     \<Rightarrow> 'e option \<times> ('k, 'l, 'a) signal_emitter" where
  "invoke beh l args s = (beh l args, s\<lparr>calls := calls s @ [(l, args)]\<rparr>)"

text \<open>
  \<open>off(signalName, listener)\<close>: the flag is deleted first, whether or not the signal has
  listeners; then the listener is deleted from the signal's set, and the entry of the map
  with it when the set has become empty.
\<close>

definition off :: "'k \<Rightarrow> 'l \<Rightarrow> ('k, 'l, 'a) signal_emitter \<Rightarrow> ('k, 'l, 'a) signal_emitter" where
  "off k l s =
     (let s1 = s\<lparr>onceFlag := (onceFlag s)(l := False)\<rparr> in
      case listeners s1 k of
        None \<Rightarrow> s1
      | Some ls \<Rightarrow>
          (let ls' = Set_delete l ls in
           if length ls' = 0
           then s1\<lparr>listeners := (listeners s1)(k := None)\<rparr>
           else s1\<lparr>listeners := (listeners s1)(k \<mapsto> ls')\<rparr>))"

text \<open>
  \<open>on(signalName, options, listener)\<close>: add the listener, set the flag when
  \<open>options?.once\<close>, then replay the recorded arguments, if any. The replay is a plain call:
  when the listener throws, \<open>on\<close> throws (\<open>Inl\<close>), with the registration already done. An
  array is truthy also when empty, so \<open>if (lastArgs)\<close> asks only whether the map has an
  entry.
\<close>

definition on ::
  "('l, 'a, 'e) behaviour \<Rightarrow> 'k \<Rightarrow> SignalListenerOptions option \<Rightarrow> 'l
     \<Rightarrow> ('k, 'l, 'a) signal_emitter \<Rightarrow> ('e + unit) \<times> ('k, 'l, 'a) signal_emitter" where
  "on beh k options l s =
     (let s1 = (case listeners s k of
                  Some ls \<Rightarrow> s\<lparr>listeners := (listeners s)(k \<mapsto> Set_add l ls)\<rparr>
                | None \<Rightarrow> s\<lparr>listeners := (listeners s)(k \<mapsto> [l])\<rparr>);
          s2 = (if (case options of None \<Rightarrow> False | Some opts \<Rightarrow> once opts)
                then s1\<lparr>onceFlag := (onceFlag s1)(l := True)\<rparr> else s1)
      in case (case lastArgs s2 of None \<Rightarrow> None | Some m \<Rightarrow> m k) of
           None \<Rightarrow> (Inr (), s2)
         | Some a \<Rightarrow>
             (case invoke beh l a s2 of
                (None, s3) \<Rightarrow> (Inr (), s3)
              | (Some e, s3) \<Rightarrow> (Inl e, s3)))"

text \<open>
  The callback given to \<open>flatMap\<close> in \<open>[EMIT]\<close>: a fire-once listener is removed with
  \<open>off\<close>, then the listener is called inside \<open>try\<close>; a thrown value becomes a one-element
  array, a normal return the empty array.
\<close>

definition dispatch_one ::
  "('l, 'a, 'e) behaviour \<Rightarrow> 'k \<Rightarrow> 'a list \<Rightarrow> 'l \<Rightarrow> ('k, 'l, 'a) signal_emitter
     \<Rightarrow> 'e list \<times> ('k, 'l, 'a) signal_emitter" where
  "dispatch_one beh k args l s =
     (let s1 = (if onceFlag s l then off k l s else s) in
      case invoke beh l args s1 of
        (Some e, s2) \<Rightarrow> ([e], s2)
      | (None, s2) \<Rightarrow> ([], s2))"

text \<open>
  \<open>listeners.values().flatMap(...).toArray()\<close>: the callback runs on the members of the set
  in insertion order and the arrays it returns are concatenated. The iterator is live,
  but the only change to the set while it runs is the removal of the member being visited,
  so it visits the members the set had when the iteration began.
\<close>

fun dispatch ::
  "('l, 'a, 'e) behaviour \<Rightarrow> 'k \<Rightarrow> 'a list \<Rightarrow> 'l list \<Rightarrow> ('k, 'l, 'a) signal_emitter
     \<Rightarrow> 'e list \<times> ('k, 'l, 'a) signal_emitter" where
  "dispatch beh k args [] s = ([], s)"
| "dispatch beh k args (l # ls) s =
     (case dispatch_one beh k args l s of
        (es, s1) \<Rightarrow> (case dispatch beh k args ls s1 of (es', s2) \<Rightarrow> (es @ es', s2)))"

text \<open>
  The first block of \<open>[EMIT]\<close>, \<open>this.#lastArgs?.set(signalName, args)\<close>: the arguments
  are recorded when \<open>#lastArgs\<close> is a map, that is in immediate mode.
\<close>

definition save_args :: "'k \<Rightarrow> 'a list \<Rightarrow> ('k, 'l, 'a) signal_emitter \<Rightarrow> ('k, 'l, 'a) signal_emitter" where
  "save_args k args s =
     (case lastArgs s of
        None \<Rightarrow> s
      | Some m \<Rightarrow> s\<lparr>lastArgs := Some (m(k \<mapsto> args))\<rparr>)"

text \<open>
  \<open>[EMIT](signalName, ...args)\<close>: save the arguments, return \<open>[false, []]\<close> when the map
  has no entry for the signal, and otherwise run the listeners and return
  \<open>[true, errors]\<close>. A \<open>Set\<close> object is truthy also when empty.
\<close>

definition EMIT ::
  "('l, 'a, 'e) behaviour \<Rightarrow> 'k \<Rightarrow> 'a list \<Rightarrow> ('k, 'l, 'a) signal_emitter
     \<Rightarrow> (bool \<times> 'e list) \<times> ('k, 'l, 'a) signal_emitter" where
  "EMIT beh k args s =
     (let s1 = save_args k args s in
      case listeners s1 k of
        None \<Rightarrow> ((False, []), s1)
      | Some ls \<Rightarrow> (case dispatch beh k args ls s1 of (errors, s2) \<Rightarrow> ((True, errors), s2)))"

text \<open>
  \<open>[CLEAR_SIGNAL](signalName)\<close>: \<open>off\<close> for every member of the signal's set, if there is
  one.
\<close>

definition CLEAR_SIGNAL :: "'k \<Rightarrow> ('k, 'l, 'a) signal_emitter \<Rightarrow> ('k, 'l, 'a) signal_emitter" where
  "CLEAR_SIGNAL k s =
     (case listeners s k of None \<Rightarrow> s | Some ls \<Rightarrow> fold (off k) ls s)"

text \<open>
  \<open>Object.keys(o)\<close> is the array of the own enumerable string-keyed properties of \<open>o\<close>. The
  entries of a \<open>Map\<close> are not properties of the \<open>Map\<close> object, and the emitter never
  assigns a property to \<open>#listeners\<close>: whatever the map holds, the array is empty.
\<close>

definition Object_keys :: "('k \<rightharpoonup> 'v) \<Rightarrow> 'k list" where
  "Object_keys m = []"

text \<open>\<open>[CLEAR_ALL_SIGNALS]()\<close>: \<open>[CLEAR_SIGNAL]\<close> for every key of \<open>Object.keys(this.#listeners)\<close>.\<close>

definition CLEAR_ALL_SIGNALS :: "('k, 'l, 'a) signal_emitter \<Rightarrow> ('k, 'l, 'a) signal_emitter" where
  "CLEAR_ALL_SIGNALS s = fold CLEAR_SIGNAL (Object_keys (listeners s)) s"

subsection \<open>The controller\<close>

text \<open>
  An \<open>onError\<close> callback is modelled by its outcome, like a listener: \<open>None\<close> when it
  returns, \<open>Some x\<close> when it throws \<open>x\<close>.
\<close>

type_synonym ('k, 'a, 'e) handler = "'e \<Rightarrow> 'k \<Rightarrow> 'a list \<Rightarrow> 'e option"

record ('k, 'a, 'e) SignalControllerOptions =
  opt_immediate :: bool
  opt_onError :: "('k, 'a, 'e) handler option"

text \<open>What the public field \<open>onError\<close> holds: a callback, or \<open>console.error\<close>.\<close>

datatype ('k, 'a, 'e) error_sink = Callback "('k, 'a, 'e) handler" | ConsoleErrorFn

text \<open>What is written to the console.\<close>

datatype ('k, 'a, 'e) console_event =
    ConsoleError3 'e 'k "'a list"
  | ConsoleError1 'e
  | ConsoleWarn string

text \<open>
  The state of a \<open>SignalController\<close> and of what it owns:
  \<^item> \<open>options\<close>, \<open>emitter\<close> and \<open>onError\<close> are the fields of the class;
  \<^item> \<open>destroyed\<close> tells whether \<open>destroy\<close> has replaced \<open>this.emit\<close> and
    \<open>this.emitter.on\<close> (it assigns both, nothing else does);
  \<^item> \<open>reported\<close> is the log of the calls of the \<open>onError\<close> callback, and \<open>console\<close> what was
    written to the console, both oldest first.
\<close>

record ('k, 'l, 'a, 'e) signal_controller =
  options :: "('k, 'a, 'e) SignalControllerOptions"
  emitter :: "('k, 'l, 'a) signal_emitter"
  onError :: "('k, 'a, 'e) error_sink"
  destroyed :: bool
  reported :: "('e \<times> 'k \<times> 'a list) list"
  console :: "('k, 'a, 'e) console_event list"

definition SignalController ::
  "('k, 'a, 'e) SignalControllerOptions \<Rightarrow> ('k, 'l, 'a, 'e) signal_controller" where
  "SignalController opts =
     \<lparr> options = opts,
       emitter = SignalEmitter (opt_immediate opts),
       onError = (case opt_onError opts of Some h \<Rightarrow> Callback h | None \<Rightarrow> ConsoleErrorFn),
       destroyed = False,
       reported = [],
       console = [] \<rparr>"

text \<open>
  The body of the loop of \<open>emit\<close>: \<open>this.options.onError?.(error, signalName, args)\<close>
  inside \<open>try\<close>. It reads the callback from \<open>options\<close>, not from the field \<open>onError\<close>; when
  \<open>options\<close> has none, the optional call does nothing. When the callback throws, the two
  \<open>console.error\<close> calls of the \<open>catch\<close> block run.
\<close>

definition report_error ::
  "'k \<Rightarrow> 'a list \<Rightarrow> 'e \<Rightarrow> ('k, 'l, 'a, 'e) signal_controller \<Rightarrow> ('k, 'l, 'a, 'e) signal_controller" where
  "report_error k args error c =
     (case opt_onError (options c) of
        None \<Rightarrow> c
      | Some h \<Rightarrow>
          (let c1 = c\<lparr>reported := reported c @ [(error, k, args)]\<rparr> in
           case h error k args of
             None \<Rightarrow> c1
           | Some x \<Rightarrow> c1\<lparr>console := console c1 @ [ConsoleError3 error k args, ConsoleError1 x]\<rparr>))"

text \<open>
  \<open>emit(signalName, ...args)\<close>. After \<open>destroy\<close> it is the replacement closure: a warning
  on the console, and \<open>false\<close>.
\<close>

definition emit ::
  "('l, 'a, 'e) behaviour \<Rightarrow> 'k \<Rightarrow> 'a list \<Rightarrow> ('k, 'l, 'a, 'e) signal_controller
     \<Rightarrow> bool \<times> ('k, 'l, 'a, 'e) signal_controller" where
  "emit beh k args c =
     (if destroyed c
      then (False, c\<lparr>console := console c @
              [ConsoleWarn ''Ignoring signal emitted to a SignalController that has been destroyed.'']\<rparr>)
      else (case EMIT beh k args (emitter c) of
              ((called, errors), em) \<Rightarrow>
                (called, fold (report_error k args) errors (c\<lparr>emitter := em\<rparr>))))"

text \<open>
  \<open>controller.emitter.on(...)\<close>, the way subscribers reach \<open>on\<close>: the method of the class
  until \<open>destroy\<close>, the replacement closure (a warning, nothing else) after it.
\<close>

definition emitter_on ::
  "('l, 'a, 'e) behaviour \<Rightarrow> 'k \<Rightarrow> SignalListenerOptions option \<Rightarrow> 'l
     \<Rightarrow> ('k, 'l, 'a, 'e) signal_controller \<Rightarrow> ('e + unit) \<times> ('k, 'l, 'a, 'e) signal_controller" where
  "emitter_on beh k opts l c =
     (if destroyed c
      then (Inr (), c\<lparr>console := console c @
              [ConsoleWarn ''Ignoring subscription of new listener to a SignalEmitter whose controller has been destroyed.'']\<rparr>)
      else (case on beh k opts l (emitter c) of
              (r, em) \<Rightarrow> (r, c\<lparr>emitter := em\<rparr>)))"

text \<open>The controller's \<open>off(signalName)\<close>, \<open>clear()\<close> and \<open>destroy()\<close>.\<close>

definition controller_off ::
  "'k \<Rightarrow> ('k, 'l, 'a, 'e) signal_controller \<Rightarrow> ('k, 'l, 'a, 'e) signal_controller" where
  "controller_off k c = c\<lparr>emitter := CLEAR_SIGNAL k (emitter c)\<rparr>"

definition clear :: "('k, 'l, 'a, 'e) signal_controller \<Rightarrow> ('k, 'l, 'a, 'e) signal_controller" where
  "clear c = c\<lparr>emitter := CLEAR_ALL_SIGNALS (emitter c)\<rparr>"

definition destroy :: "('k, 'l, 'a, 'e) signal_controller \<Rightarrow> ('k, 'l, 'a, 'e) signal_controller" where
  "destroy c = (clear c)\<lparr>destroyed := True\<rparr>"

subsection \<open>Notions used to state the properties\<close>

text \<open>No signal name is mapped to an empty set.\<close>

definition no_empty_sets :: "('k, 'l, 'a) signal_emitter \<Rightarrow> bool" where
  "no_empty_sets s = (\<forall>k. listeners s k \<noteq> Some [])"

text \<open>The lists that stand for \<open>Set\<close>s hold no listener twice.\<close>

definition sets_distinct :: "('k, 'l, 'a) signal_emitter \<Rightarrow> bool" where
  "sets_distinct s = (\<forall>k. distinct (registered s k))"

text \<open>What a call of listener \<open>l\<close> with \<open>args\<close> adds to the failures of a dispatch.\<close>

definition thrown :: "('l, 'a, 'e) behaviour \<Rightarrow> 'a list \<Rightarrow> 'l \<Rightarrow> 'e list" where
  "thrown beh args l = (case beh l args of None \<Rightarrow> [] | Some e \<Rightarrow> [e])"

text \<open>How often listener \<open>l\<close> has been invoked so far.\<close>

definition invocations :: "'l \<Rightarrow> ('k, 'l, 'a) signal_emitter \<Rightarrow> nat" where
  "invocations l s = length (filter (\<lambda>c. fst c = l) (calls s))"

text \<open>Emissions of one signal in a row, one for each argument tuple of the list.\<close>

fun emit_many ::
  "('l, 'a, 'e) behaviour \<Rightarrow> 'k \<Rightarrow> 'a list list \<Rightarrow> ('k, 'l, 'a) signal_emitter
     \<Rightarrow> ('k, 'l, 'a) signal_emitter" where
  "emit_many beh k [] s = s"
| "emit_many beh k (args # rest) s = emit_many beh k rest (snd (EMIT beh k args s))"







text \<open>An immediate-mode controller as \<open>new SignalController({ immediate: true })\<close> makes it.\<close>

definition fresh_immediate_controller :: "(string, nat, int, string) signal_controller" where
  "fresh_immediate_controller = SignalController \<lparr> opt_immediate = True, opt_onError = None \<rparr>"

subsection \<open>A small configuration to evaluate the operations on\<close>

text \<open>Listener 0 throws \<open>''boom''\<close>, listener 2 throws \<open>''bang''\<close>, every other one returns.\<close>

definition demo_listeners :: "(nat, int, string) behaviour" where
  "demo_listeners l args = (if l = 0 then Some ''boom'' else if l = 2 then Some ''bang'' else None)"

text \<open>
  An immediate-mode emitter with listeners 0, 1 and 2 on \<open>''ping''\<close>, listener 1 flagged
  fire-once, and \<open>[42]\<close> recorded as the last arguments of \<open>''ping''\<close>.
\<close>

definition demo_emitter :: "(string, nat, int) signal_emitter" where
  "demo_emitter =
     \<lparr> listeners = [''ping'' \<mapsto> [0, 1, 2]],
       lastArgs = Some [''ping'' \<mapsto> [42]],
       onceFlag = (\<lambda>l. l = 1),
       calls = [] \<rparr>"

text \<open>A controller built with no options.\<close>

definition demo_controller :: "(string, nat, int, string) signal_controller" where
  "demo_controller = SignalController \<lparr> opt_immediate = False, opt_onError = None \<rparr>"

section \<open>Properties\<close>

subsection \<open>Unsubscribing\<close>

lemma off_calls [simp]: "calls (off k l s) = calls s"
  by (simp add: off_def Let_def split: option.splits)

lemma off_lastArgs [simp]: "lastArgs (off k l s) = lastArgs s"
  by (simp add: off_def Let_def split: option.splits)

lemma off_onceFlag [simp]: "onceFlag (off k l s) = (onceFlag s)(l := False)"
  by (simp add: off_def Let_def split: option.splits)

lemma off_registered [simp]:
  "registered (off k l s) k' = (if k' = k then removeAll l (registered s k) else registered s k')"
  by (simp add: off_def registered_def Set_delete_def Let_def split: option.splits)

lemma off_listeners:
  "listeners (off k l s) =
     (if removeAll l (registered s k) = [] then (listeners s)(k := None)
      else (listeners s)(k \<mapsto> removeAll l (registered s k)))"
  by (auto simp: off_def registered_def Set_delete_def Let_def fun_upd_idem_iff split: option.splits)

lemma off_no_empty_sets: "no_empty_sets s \<Longrightarrow> no_empty_sets (off k l s)"
  by (simp add: off_def no_empty_sets_def Let_def split: option.splits)


lemma off_unregistered:
  "no_empty_sets s \<Longrightarrow> l \<notin> set (registered s k) \<Longrightarrow> listeners (off k l s) = listeners s"
  by (auto simp: off_def no_empty_sets_def registered_def Set_delete_def Let_def fun_upd_idem_iff
      split: option.splits)

subsection \<open>Subscribing\<close>

lemma Set_add_member [simp]: "l \<in> set (Set_add l ls)"
  by (simp add: Set_add_def)

lemma on_registered:
  "registered (snd (on beh k opts l s)) k' =
     (if k' = k then Set_add l (registered s k) else registered s k')"
  by (simp add: on_def registered_def invoke_def Set_add_def Let_def split: option.splits prod.splits)

lemma on_lastArgs [simp]: "lastArgs (snd (on beh k opts l s)) = lastArgs s"
  by (simp add: on_def invoke_def Let_def split: option.splits prod.splits)

lemma on_onceFlag:
  "onceFlag (snd (on beh k opts l s)) =
     (if (case opts of None \<Rightarrow> False | Some x \<Rightarrow> once x) then (onceFlag s)(l := True) else onceFlag s)"
  by (simp add: on_def invoke_def Let_def split: option.splits prod.splits)

lemma on_calls:
  "calls (snd (on beh k opts l s)) =
     calls s @ (case (case lastArgs s of None \<Rightarrow> None | Some m \<Rightarrow> m k) of
                  None \<Rightarrow> [] | Some a \<Rightarrow> [(l, a)])"
  by (simp add: on_def invoke_def Let_def split: option.splits prod.splits)

lemma on_result:
  "fst (on beh k opts l s) =
     (case (case lastArgs s of None \<Rightarrow> None | Some m \<Rightarrow> m k) of
        None \<Rightarrow> Inr ()
      | Some a \<Rightarrow> (case beh l a of None \<Rightarrow> Inr () | Some e \<Rightarrow> Inl e))"
  by (simp add: on_def invoke_def Let_def split: option.splits prod.splits)

lemma on_no_empty_sets: "no_empty_sets s \<Longrightarrow> no_empty_sets (snd (on beh k opts l s))"
  by (auto simp: on_def invoke_def no_empty_sets_def Set_add_def Let_def
      split: option.splits prod.splits)

lemma on_sets_distinct: "sets_distinct s \<Longrightarrow> sets_distinct (snd (on beh k opts l s))"
  by (simp add: sets_distinct_def on_registered Set_add_def)

subsection \<open>One listener of a dispatch\<close>

lemma registered_calls_update [simp]: "registered (s\<lparr>calls := c\<rparr>) = registered s"
  by (simp add: registered_def fun_eq_iff)

lemma dispatch_one_errors: "fst (dispatch_one beh k args l s) = thrown beh args l"
  by (simp add: dispatch_one_def invoke_def thrown_def Let_def split: option.splits)

lemma dispatch_one_state:
  "snd (dispatch_one beh k args l s) =
     (if onceFlag s l then off k l s else s)\<lparr>calls := calls s @ [(l, args)]\<rparr>"
  by (simp add: dispatch_one_def invoke_def Let_def split: option.splits)

lemma dispatch_one_calls: "calls (snd (dispatch_one beh k args l s)) = calls s @ [(l, args)]"
  by (simp add: dispatch_one_state)

lemma dispatch_one_lastArgs: "lastArgs (snd (dispatch_one beh k args l s)) = lastArgs s"
  by (simp add: dispatch_one_state)

lemma dispatch_one_onceFlag:
  "onceFlag (snd (dispatch_one beh k args l s)) = (onceFlag s)(l := False)"
  by (auto simp: dispatch_one_state fun_eq_iff)

lemma dispatch_one_registered:
  "registered (snd (dispatch_one beh k args l s)) k' =
     (if k' = k \<and> onceFlag s l then removeAll l (registered s k) else registered s k')"
  by (simp add: dispatch_one_state)

lemma dispatch_one_no_empty_sets:
  "no_empty_sets s \<Longrightarrow> no_empty_sets (snd (dispatch_one beh k args l s))"
  using off_no_empty_sets[of s k l]
  by (simp add: dispatch_one_state no_empty_sets_def)

subsection \<open>The dispatch loop\<close>

lemma dispatch_errors: "fst (dispatch beh k args ls s) = concat (map (thrown beh args) ls)"
proof (induction ls arbitrary: s)
  case Nil
  show ?case by simp
next
  case (Cons l ls)
  have "fst (dispatch beh k args (l # ls) s) =
        fst (dispatch_one beh k args l s) @
        fst (dispatch beh k args ls (snd (dispatch_one beh k args l s)))"
    by (simp split: prod.splits)
  then show ?case by (simp add: Cons.IH dispatch_one_errors)
qed

lemma dispatch_Cons_state:
  "snd (dispatch beh k args (l # ls) s) =
     snd (dispatch beh k args ls (snd (dispatch_one beh k args l s)))"
  by (simp split: prod.splits)

declare dispatch.simps(2) [simp del]

lemma dispatch_calls:
  "calls (snd (dispatch beh k args ls s)) = calls s @ map (\<lambda>l. (l, args)) ls"
  by (induction ls arbitrary: s) (simp_all add: dispatch_Cons_state dispatch_one_calls)

lemma dispatch_lastArgs: "lastArgs (snd (dispatch beh k args ls s)) = lastArgs s"
  by (induction ls arbitrary: s) (simp_all add: dispatch_Cons_state dispatch_one_lastArgs)

lemma dispatch_onceFlag:
  "onceFlag (snd (dispatch beh k args ls s)) l = (onceFlag s l \<and> l \<notin> set ls)"
  by (induction ls arbitrary: s) (auto simp: dispatch_Cons_state dispatch_one_onceFlag)

lemma dispatch_registered:
  "registered (snd (dispatch beh k args ls s)) k' =
     (if k' = k then filter (\<lambda>l. \<not> (l \<in> set ls \<and> onceFlag s l)) (registered s k)
      else registered s k')"
proof (induction ls arbitrary: s)
  case Nil
  show ?case by simp
next
  case (Cons x xs)
  show ?case
    by (auto simp: dispatch_Cons_state Cons.IH dispatch_one_registered dispatch_one_onceFlag
        removeAll_filter_not_eq intro!: filter_cong)
qed

lemma dispatch_no_empty_sets:
  "no_empty_sets s \<Longrightarrow> no_empty_sets (snd (dispatch beh k args ls s))"
  by (induction ls arbitrary: s) (simp_all add: dispatch_Cons_state dispatch_one_no_empty_sets)

subsection \<open>Emission\<close>

lemma save_args_simps [simp]:
  "listeners (save_args k args s) = listeners s"
  "registered (save_args k args s) = registered s"
  "onceFlag (save_args k args s) = onceFlag s"
  "calls (save_args k args s) = calls s"
  "lastArgs (save_args k args s) = map_option (\<lambda>m. m(k \<mapsto> args)) (lastArgs s)"
  by (simp_all add: save_args_def registered_def fun_eq_iff split: option.splits)

lemma EMIT_unfold:
  "EMIT beh k args s =
     (case listeners s k of
        None \<Rightarrow> ((False, []), save_args k args s)
      | Some ls \<Rightarrow> ((True, fst (dispatch beh k args ls (save_args k args s))),
                   snd (dispatch beh k args ls (save_args k args s))))"
  by (simp add: EMIT_def Let_def split: option.splits prod.splits)

lemma EMIT_result:
  "fst (EMIT beh k args s) =
     (case listeners s k of
        None \<Rightarrow> (False, [])
      | Some ls \<Rightarrow> (True, concat (map (thrown beh args) ls)))"
  by (simp add: EMIT_unfold dispatch_errors split: option.splits)

lemma EMIT_calls:
  "calls (snd (EMIT beh k args s)) = calls s @ map (\<lambda>l. (l, args)) (registered s k)"
  by (simp add: EMIT_unfold dispatch_calls registered_def split: option.splits)

lemma EMIT_lastArgs:
  "lastArgs (snd (EMIT beh k args s)) = map_option (\<lambda>m. m(k \<mapsto> args)) (lastArgs s)"
  by (simp add: EMIT_unfold dispatch_lastArgs split: option.splits)

lemma EMIT_onceFlag:
  "onceFlag (snd (EMIT beh k args s)) l = (onceFlag s l \<and> l \<notin> set (registered s k))"
  by (simp add: EMIT_unfold dispatch_onceFlag registered_def split: option.splits)

lemma EMIT_registered:
  "registered (snd (EMIT beh k args s)) k' =
     (if k' = k then filter (\<lambda>l. \<not> onceFlag s l) (registered s k) else registered s k')"
  by (auto simp: EMIT_unfold dispatch_registered registered_def[of s k]
      split: option.splits intro!: filter_cong)

lemma EMIT_no_empty_sets: "no_empty_sets s \<Longrightarrow> no_empty_sets (snd (EMIT beh k args s))"
proof -
  assume "no_empty_sets s"
  then have "no_empty_sets (save_args k args s)" by (simp add: no_empty_sets_def)
  then show ?thesis
    by (simp add: EMIT_unfold dispatch_no_empty_sets split: option.splits)
qed

lemma EMIT_sets_distinct: "sets_distinct s \<Longrightarrow> sets_distinct (snd (EMIT beh k args s))"
  by (simp add: sets_distinct_def EMIT_registered)

subsection \<open>Clearing\<close>

lemma fold_off_no_empty_sets: "no_empty_sets s \<Longrightarrow> no_empty_sets (fold (off k) ls s)"
  by (induction ls arbitrary: s) (simp_all add: off_no_empty_sets)


lemma CLEAR_SIGNAL_no_empty_sets: "no_empty_sets s \<Longrightarrow> no_empty_sets (CLEAR_SIGNAL k s)"
  by (simp add: CLEAR_SIGNAL_def fold_off_no_empty_sets split: option.splits)


lemma CLEAR_ALL_SIGNALS_unchanged: "CLEAR_ALL_SIGNALS s = s"
  by (simp add: CLEAR_ALL_SIGNALS_def Object_keys_def)

lemma clear_unchanged: "clear c = c"
  by (simp add: clear_def CLEAR_ALL_SIGNALS_unchanged)

lemma destroy_only_sets_flag: "destroy c = c\<lparr>destroyed := True\<rparr>"
  by (simp add: destroy_def clear_unchanged)

subsection \<open>Counting invocations\<close>

lemma count_in_distinct:
  assumes "distinct ls"
  shows "length (filter (\<lambda>c. fst c = l) (map (\<lambda>x. (x, args)) ls)) = (if l \<in> set ls then 1 else 0)"
proof -
  from assms have "length (filter (\<lambda>x. x = l) ls) = (if l \<in> set ls then 1 else 0)"
    by (induction ls) auto
  then show ?thesis by (simp add: filter_map comp_def)
qed

lemma EMIT_invocations:
  "sets_distinct s \<Longrightarrow>
   invocations l (snd (EMIT beh k args s)) =
     invocations l s + (if l \<in> set (registered s k) then 1 else 0)"
  using count_in_distinct[of "registered s k" l args]
  by (simp add: invocations_def EMIT_calls sets_distinct_def)

lemma emit_many_unregistered:
  "sets_distinct s \<Longrightarrow> l \<notin> set (registered s k) \<Longrightarrow>
   l \<notin> set (registered (emit_many beh k argss s) k) \<and>
   invocations l (emit_many beh k argss s) = invocations l s"
proof (induction argss arbitrary: s)
  case Nil
  then show ?case by simp
next
  case (Cons args rest)
  let ?s1 = "snd (EMIT beh k args s)"
  have "sets_distinct ?s1" using Cons.prems(1) by (rule EMIT_sets_distinct)
  moreover have "l \<notin> set (registered ?s1 k)" using Cons.prems(2) by (simp add: EMIT_registered)
  ultimately have "l \<notin> set (registered (emit_many beh k rest ?s1) k) \<and>
      invocations l (emit_many beh k rest ?s1) = invocations l ?s1"
    by (rule Cons.IH)
  then show ?case using Cons.prems by (simp add: EMIT_invocations)
qed

lemma emit_many_once:
  assumes "sets_distinct s" and "onceFlag s l" and "l \<in> set (registered s k)"
  shows "invocations l (emit_many beh k argss s) = invocations l s + (if argss = [] then 0 else 1) \<and>
         (argss = [] \<or> l \<notin> set (registered (emit_many beh k argss s) k))"
proof (cases argss)
  case Nil
  then show ?thesis by simp
next
  case (Cons args rest)
  let ?s1 = "snd (EMIT beh k args s)"
  have d: "sets_distinct ?s1" using assms(1) by (rule EMIT_sets_distinct)
  have n: "l \<notin> set (registered ?s1 k)" using assms(2) by (simp add: EMIT_registered)
  have i: "invocations l ?s1 = invocations l s + 1"
    using assms by (simp add: EMIT_invocations)
  from emit_many_unregistered[OF d n, where beh=beh and argss=rest] i Cons show ?thesis by simp
qed

subsection \<open>Error reporting of the controller\<close>

lemma report_error_emitter [simp]: "emitter (report_error k args e c) = emitter c"
  by (simp add: report_error_def Let_def split: option.splits)

lemma report_error_destroyed [simp]: "destroyed (report_error k args e c) = destroyed c"
  by (simp add: report_error_def Let_def split: option.splits)

lemma report_error_options [simp]: "options (report_error k args e c) = options c"
  by (simp add: report_error_def Let_def split: option.splits)

lemma fold_report_error_emitter [simp]: "emitter (fold (report_error k args) es c) = emitter c"
  by (induction es arbitrary: c) simp_all

lemma fold_report_error_destroyed [simp]:
  "destroyed (fold (report_error k args) es c) = destroyed c"
  by (induction es arbitrary: c) simp_all

lemma fold_report_error_reported:
  "opt_onError (options c) = Some h \<Longrightarrow>
   reported (fold (report_error k args) es c) = reported c @ map (\<lambda>e. (e, k, args)) es"
  by (induction es arbitrary: c) (simp_all add: report_error_def Let_def split: option.splits)

lemma fold_report_error_none:
  "opt_onError (options c) = None \<Longrightarrow> fold (report_error k args) es c = c"
  by (induction es arbitrary: c) (simp_all add: report_error_def)

lemma emit_active:
  "\<not> destroyed c \<Longrightarrow>
   fst (emit beh k args c) = fst (fst (EMIT beh k args (emitter c))) \<and>
   emitter (snd (emit beh k args c)) = snd (EMIT beh k args (emitter c))"
  by (simp add: emit_def split: prod.splits)

lemma emit_reports_to_supplied_callback:
  "\<not> destroyed c \<Longrightarrow> opt_onError (options c) = Some h \<Longrightarrow>
   reported (snd (emit beh k args c)) =
     reported c @ map (\<lambda>e. (e, k, args)) (snd (fst (EMIT beh k args (emitter c))))"
  by (simp add: emit_def fold_report_error_reported split: prod.splits)

lemma emit_after_destroy:
  "fst (emit beh k args (destroy c)) = False \<and>
   emitter (snd (emit beh k args (destroy c))) = emitter c \<and>
   reported (snd (emit beh k args (destroy c))) = reported c"
  by (simp add: emit_def destroy_only_sets_flag)

lemma emitter_on_after_destroy:
  "fst (emitter_on beh k opts l (destroy c)) = Inr () \<and>
   emitter (snd (emitter_on beh k opts l (destroy c))) = emitter c"
  by (simp add: emitter_on_def destroy_only_sets_flag)

lemma emitter_on_active:
  "\<not> destroyed c \<Longrightarrow>
   fst (emitter_on beh k opts l c) = fst (on beh k opts l (emitter c)) \<and>
   emitter (snd (emitter_on beh k opts l c)) = snd (on beh k opts l (emitter c)) \<and>
   reported (snd (emitter_on beh k opts l c)) = reported c \<and>
   console (snd (emitter_on beh k opts l c)) = console c"
  by (simp add: emitter_on_def split: prod.splits)

subsection \<open>Sequences of operations\<close>

lemma fold_off_calls [simp]: "calls (fold (off k) ls s) = calls s"
  by (induction ls arbitrary: s) simp_all


lemma CLEAR_SIGNAL_calls [simp]: "calls (CLEAR_SIGNAL k s) = calls s"
  by (simp add: CLEAR_SIGNAL_def split: option.splits)

lemma off_invocations [simp]: "invocations l (off k x s) = invocations l s"
  by (simp add: invocations_def)

lemma CLEAR_SIGNAL_invocations [simp]: "invocations l (CLEAR_SIGNAL k s) = invocations l s"
  by (simp add: invocations_def)







lemmas eval_defs =
  SignalController_def SignalEmitter_def emitter_on_def on_def off_def EMIT_def save_args_def
  dispatch_one_def invoke_def clear_def destroy_def CLEAR_ALL_SIGNALS_def CLEAR_SIGNAL_def
  Object_keys_def emit_def report_error_def registered_def Set_add_def Set_delete_def
  demo_listeners_def demo_emitter_def demo_controller_def dispatch.simps Let_def

section \<open>The claims\<close>

text \<open>
  C1. The claim: \<open>clear()\<close> removes every listener of every registered signal, so that a
  later emit of a signal that had subscribers returns false. The code does not do so. On a
  controller built with no options, with listener 1 subscribed to \<open>''ping''\<close>, \<open>clear()\<close>
  leaves the listener registered, and the following \<open>emit(''ping'', 7)\<close> returns true and
  invokes it: \<open>Object.keys\<close> of a \<open>Map\<close> is empty, so \<open>[CLEAR_ALL_SIGNALS]\<close> visits no
  signal.
\<close>

theorem clear_keeps_listeners:
  "(let c1 = snd (emitter_on demo_listeners ''ping'' None 1 demo_controller);
        c2 = clear c1;
        r = emit demo_listeners ''ping'' [7] c2
    in registered (emitter c2) ''ping'' = [1]
     \<and> fst r = True
     \<and> calls (emitter (snd r)) = [(1, [7])])"
  by (simp add: eval_defs)

text \<open>
  C2. The claim: after \<open>destroy()\<close> every emit returns false and invokes no listener, no
  subscription through \<open>on\<close> adds a listener, and, \<open>destroy\<close> having cleared the registry, a
  direct dispatch on the emitter finds no listener. The last part fails on the code, for
  the reason of C1: with listener 1 subscribed to \<open>''ping''\<close> before \<open>destroy()\<close>, a direct
  \<open>[EMIT](''ping'', 7)\<close> after it returns \<open>[true, []]\<close> and invokes the listener. The
  first two parts hold (\<open>emit_after_destroy\<close>, \<open>emitter_on_after_destroy\<close>).
\<close>

theorem destroy_keeps_listeners:
  "(let c1 = snd (emitter_on demo_listeners ''ping'' None 1 demo_controller);
        c2 = destroy c1;
        r = EMIT demo_listeners ''ping'' [7] (emitter c2)
    in destroyed c2
     \<and> registered (emitter c2) ''ping'' = [1]
     \<and> fst r = (True, [])
     \<and> calls (snd r) = [(1, [7])])"
  by (simp add: eval_defs)

text \<open>
  C3. The claim: for every failure that the dispatch returns, \<open>emit\<close> calls the \<open>onError\<close>
  callback given at construction or, when none was given, the default logger. The code
  calls \<open>this.options.onError\<close>, not the field \<open>onError\<close> that holds the default: on a
  controller built with no options, where the field is \<open>console.error\<close>, listener 0 throws
  \<open>''boom''\<close> during \<open>emit(''ping'', 7)\<close>, the dispatch returns the failure, and nothing is
  called or logged. With a callback given at construction the claim holds
  (\<open>emit_reports_to_supplied_callback\<close>).
\<close>

theorem emit_drops_failures_without_callback:
  "(let c1 = snd (emitter_on demo_listeners ''ping'' None 0 demo_controller);
        r = emit demo_listeners ''ping'' [7] c1
    in onError c1 = ConsoleErrorFn
     \<and> fst (EMIT demo_listeners ''ping'' [7] (emitter c1)) = (True, [''boom''])
     \<and> fst r = True
     \<and> reported (snd r) = []
     \<and> console (snd r) = [])"
  by (simp add: eval_defs)

text \<open>
  C4. In a state where no signal is mapped to an empty set, the dispatch \<open>[EMIT]\<close> of signal
  \<open>k\<close> returns "handled" exactly when \<open>k\<close> has a listener, so \<open>(false, [])\<close> when it has
  none; the failures are the values thrown by the listeners of \<open>k\<close>, in insertion order;
  every listener of \<open>k\<close> is invoked once with the arguments, in insertion order, whether or
  not an earlier one threw; the fire-once listeners are removed and flagged no more; and
  for each listener the removal comes before the call. \<open>EMIT\<close> is a total function into
  pairs: nothing is raised to the caller.
\<close>

theorem EMIT_dispatch:
  assumes "no_empty_sets s"
  shows "fst (EMIT beh k args s) =
           (registered s k \<noteq> [], concat (map (thrown beh args) (registered s k)))
       \<and> calls (snd (EMIT beh k args s)) = calls s @ map (\<lambda>l. (l, args)) (registered s k)
       \<and> registered (snd (EMIT beh k args s)) k = filter (\<lambda>l. \<not> onceFlag s l) (registered s k)
       \<and> onceFlag (snd (EMIT beh k args s)) l = (onceFlag s l \<and> l \<notin> set (registered s k))
       \<and> dispatch_one beh k args l s =
           (thrown beh args l, snd (invoke beh l args (if onceFlag s l then off k l s else s)))"
proof -
  have "fst (EMIT beh k args s) =
          (registered s k \<noteq> [], concat (map (thrown beh args) (registered s k)))"
    using assms by (auto simp: EMIT_result registered_def no_empty_sets_def split: option.splits)
  moreover have "dispatch_one beh k args l s =
      (thrown beh args l, snd (invoke beh l args (if onceFlag s l then off k l s else s)))"
    by (simp add: dispatch_one_def invoke_def thrown_def Let_def split: option.splits)
  ultimately show ?thesis
    by (simp add: EMIT_calls EMIT_registered EMIT_onceFlag)
qed

theorem EMIT_dispatch_witness:
  "no_empty_sets demo_emitter
 \<and> fst (EMIT demo_listeners ''ping'' [7] demo_emitter) = (True, [''boom'', ''bang''])
 \<and> calls (snd (EMIT demo_listeners ''ping'' [7] demo_emitter)) = [(0, [7]), (1, [7]), (2, [7])]
 \<and> registered (snd (EMIT demo_listeners ''ping'' [7] demo_emitter)) ''ping'' = [0, 2]
 \<and> \<not> onceFlag (snd (EMIT demo_listeners ''ping'' [7] demo_emitter)) 1
 \<and> fst (EMIT demo_listeners ''pong'' [7] demo_emitter) = (False, [])"
proof -
  have h: "no_empty_sets demo_emitter"
    by (simp add: no_empty_sets_def demo_emitter_def)
  have r: "registered demo_emitter ''ping'' = [0, 1, 2]" "registered demo_emitter ''pong'' = []"
    by (simp_all add: registered_def demo_emitter_def)
  have f: "onceFlag demo_emitter = (\<lambda>l. l = 1)" "calls demo_emitter = []"
    by (simp_all add: demo_emitter_def)
  show ?thesis
    using h EMIT_dispatch [OF h, of demo_listeners "''ping''" "[7]" 1]
      EMIT_dispatch [OF h, of demo_listeners "''pong''" "[7]" 1]
    by (simp add: r f thrown_def demo_listeners_def)
qed

text \<open>
  C5. In immediate mode (\<open>#lastArgs\<close> is a map \<open>m\<close>, empty after construction) the
  dispatch \<open>[EMIT]\<close> of signal \<open>k\<close> records the arguments as the last ones of \<open>k\<close>, over
  any earlier value and whether or not \<open>k\<close> has listeners, and so does \<open>emit\<close> of a
  controller (after \<open>destroy\<close>, \<open>emit\<close> records nothing); \<open>on\<close> for a signal \<open>k'\<close> invokes
  the new listener inside the call with the arguments recorded for \<open>k'\<close>, when there are
  some, and does not invoke it when there are none; after an emission of \<open>k\<close> these are
  the arguments of that emission, with no further emission.
\<close>

theorem immediate_mode_replay:
  assumes "lastArgs (emitter c) = Some m"
  shows "lastArgs (snd (EMIT beh k args (emitter c))) = Some (m(k \<mapsto> args))
       \<and> lastArgs (emitter (snd (emit beh k args c))) =
           (if destroyed c then Some m else Some (m(k \<mapsto> args)))
       \<and> calls (snd (on beh k' opts l (emitter c))) =
           calls (emitter c) @ (case m k' of None \<Rightarrow> [] | Some a \<Rightarrow> [(l, a)])
       \<and> calls (snd (on beh k opts l (snd (EMIT beh k args (emitter c))))) =
           calls (snd (EMIT beh k args (emitter c))) @ [(l, args)]
       \<and> calls (emitter (snd (emitter_on beh k opts l (snd (emit beh k args c))))) =
           calls (emitter (snd (emit beh k args c))) @ (if destroyed c then [] else [(l, args)])"
proof -
  have e: "lastArgs (snd (EMIT beh k args (emitter c))) = Some (m(k \<mapsto> args))"
    using assms by (simp add: EMIT_lastArgs)
  show ?thesis
  proof (cases "destroyed c")
    case True
    then show ?thesis
      using assms e by (simp add: on_calls emit_def emitter_on_def)
  next
    case False
    then have d: "\<not> destroyed (snd (emit beh k args c))"
      by (simp add: emit_def split: prod.splits)
    have a: "emitter (snd (emit beh k args c)) = snd (EMIT beh k args (emitter c))"
      using False by (simp add: emit_active)
    show ?thesis
      using assms e False emitter_on_active[OF d, of beh k opts l] by (simp add: a on_calls)
  qed
qed

theorem immediate_mode_replay_witness:
  "lastArgs (emitter fresh_immediate_controller) = Some Map.empty
 \<and> registered (emitter fresh_immediate_controller) ''x'' = []
 \<and> fst (emit demo_listeners ''x'' [42] fresh_immediate_controller) = False
 \<and> map_option (\<lambda>m. m ''x'')
      (lastArgs (emitter (snd (emit demo_listeners ''x'' [42] fresh_immediate_controller)))) =
    Some (Some [42])
 \<and> calls (emitter (snd (emitter_on demo_listeners ''x'' None 5
      (snd (emit demo_listeners ''x'' [42] fresh_immediate_controller))))) = [(5, [42])]
 \<and> calls (snd (on demo_listeners ''x'' None 5 (emitter fresh_immediate_controller))) = []
 \<and> map_option (\<lambda>m. m ''ping'') (lastArgs (snd (EMIT demo_listeners ''ping'' [7] demo_emitter))) =
    Some (Some [7])"
proof -
  let ?c = "fresh_immediate_controller"
  have h: "lastArgs (emitter ?c) = Some Map.empty"
    by (simp add: fresh_immediate_controller_def SignalController_def SignalEmitter_def)
  have r: "registered (emitter ?c) ''x'' = []" "calls (emitter ?c) = []" "\<not> destroyed ?c"
    by (simp_all add: fresh_immediate_controller_def SignalController_def SignalEmitter_def
        registered_def)
  have f: "fst (emit demo_listeners ''x'' [42] ?c) = False"
    using r by (simp add: emit_active EMIT_result registered_def
        fresh_immediate_controller_def SignalController_def SignalEmitter_def)
  have c: "calls (emitter (snd (emit demo_listeners ''x'' [42] ?c))) = []"
    using r by (simp add: emit_active EMIT_calls)
  have h2: "lastArgs (emitter (demo_controller\<lparr>emitter := demo_emitter\<rparr>)) =
      Some [''ping'' \<mapsto> [42]]"
    by (simp add: demo_emitter_def)
  show ?thesis
    using h r f c
      immediate_mode_replay [where c = "?c" and m = Map.empty and beh = demo_listeners
        and k = "''x''" and args = "[42]" and k' = "''x''" and opts = None and l = 5, OF h]
      immediate_mode_replay [where c = "demo_controller\<lparr>emitter := demo_emitter\<rparr>"
        and m = "[''ping'' \<mapsto> [42]]" and beh = demo_listeners
        and k = "''ping''" and args = "[7]", OF h2]
    by simp
qed




text \<open>
  C7. \<open>off(k, l)\<close> removes listener \<open>l\<close> from the set of \<open>k\<close>, leaving the other listeners
  of \<open>k\<close> in their order and the other signals as they were, and clears the fire-once flag
  of \<open>l\<close>. For a listener \<open>l'\<close> that is not registered to \<open>k'\<close>, \<open>off(k', l')\<close> leaves the
  registry, the recorded arguments and the call log unchanged (the flag of \<open>l'\<close> is cleared
  all the same), and \<open>off\<close> is a total function: it raises nothing. A registry in which no
  signal is mapped to an empty set stays so under \<open>off\<close>, \<open>on\<close>, the dispatch,
  \<open>[CLEAR_SIGNAL]\<close> and \<open>[CLEAR_ALL_SIGNALS]\<close>, and the constructor establishes it.
\<close>

theorem off_removes_listener_and_empty_sets:
  assumes "no_empty_sets s" and "l' \<notin> set (registered s k')"
  shows "registered (off k l s) k = removeAll l (registered s k)
       \<and> listeners (off k l s) =
           (if removeAll l (registered s k) = [] then (listeners s)(k := None)
            else (listeners s)(k \<mapsto> removeAll l (registered s k)))
       \<and> \<not> onceFlag (off k l s) l
       \<and> listeners (off k' l' s) = listeners s
       \<and> lastArgs (off k' l' s) = lastArgs s
       \<and> calls (off k' l' s) = calls s
       \<and> \<not> onceFlag (off k' l' s) l'
       \<and> no_empty_sets (off k l s)
       \<and> no_empty_sets (snd (on beh k opts l s))
       \<and> no_empty_sets (snd (EMIT beh k args s))
       \<and> no_empty_sets (CLEAR_SIGNAL k s)
       \<and> no_empty_sets (CLEAR_ALL_SIGNALS s)
       \<and> no_empty_sets (SignalEmitter immediate :: ('k, 'l, 'a) signal_emitter)"
proof -
  have "listeners (off k' l' s) = listeners s"
    using assms by (rule off_unregistered)
  moreover have "no_empty_sets (SignalEmitter immediate :: ('k, 'l, 'a) signal_emitter)"
    by (simp add: no_empty_sets_def SignalEmitter_def)
  moreover have "listeners (off k l s) =
           (if removeAll l (registered s k) = [] then (listeners s)(k := None)
            else (listeners s)(k \<mapsto> removeAll l (registered s k)))"
    by (rule off_listeners)
  ultimately show ?thesis
    using assms(1)
    by (simp add: off_no_empty_sets on_no_empty_sets EMIT_no_empty_sets
        CLEAR_SIGNAL_no_empty_sets CLEAR_ALL_SIGNALS_unchanged)
qed

theorem off_removes_listener_and_empty_sets_witness:
  "no_empty_sets demo_emitter
 \<and> 7 \<notin> set (registered demo_emitter ''ping'')
 \<and> registered (off ''ping'' 1 demo_emitter) ''ping'' = [0, 2]
 \<and> \<not> onceFlag (off ''ping'' 1 demo_emitter) 1
 \<and> listeners (off ''ping'' 7 demo_emitter) = listeners demo_emitter
 \<and> listeners (off ''ping'' 2 (off ''ping'' 1 (off ''ping'' 0 demo_emitter))) ''ping'' = None
 \<and> no_empty_sets (off ''ping'' 1 demo_emitter)"
proof -
  have h: "no_empty_sets demo_emitter"
    by (simp add: no_empty_sets_def demo_emitter_def)
  have r: "registered demo_emitter ''ping'' = [0, 1, 2]"
    by (simp add: registered_def demo_emitter_def)
  have n: "7 \<notin> set (registered demo_emitter ''ping'')"
    by (simp add: r)
  have e: "listeners (off ''ping'' 2 (off ''ping'' 1 (off ''ping'' 0 demo_emitter))) ''ping'' = None"
    by (simp add: off_listeners r)
  show ?thesis
    using h n e
      off_removes_listener_and_empty_sets [OF h n, of "''ping''" 1 demo_listeners None "[7]" True]
    by (auto simp: r)
qed

text \<open>
  C8. The fire-once flag belongs to the listener, not to the subscription. When listener
  \<open>l\<close> is subscribed to \<open>k1\<close> with \<open>once\<close> and to another signal \<open>k2\<close> without it, in
  either order, an emission of \<open>k2\<close> removes \<open>l\<close> from the set of \<open>k2\<close>, so that further
  emissions of \<open>k2\<close> do not invoke it, and clears the flag, while \<open>l\<close> stays registered to
  \<open>k1\<close>. And \<open>off(k, l)\<close> clears the flag of \<open>l\<close> for every \<open>k\<close>, also when \<open>k\<close> has no
  listeners at all: after \<open>off(k2, l)\<close> an emission of \<open>k1\<close> leaves \<open>l\<close> registered to
  \<open>k1\<close>.
\<close>

theorem once_flag_is_per_listener:
  assumes "k1 \<noteq> k2" and "sets_distinct s0"
  shows "(let s1 = snd (on beh k1 (Some \<lparr>once = True\<rparr>) l s0);
              s2 = snd (on beh k2 None l s1);
              s3 = snd (EMIT beh k2 args s2)
          in l \<in> set (registered s2 k2) \<and> l \<notin> set (registered s3 k2)
           \<and> l \<in> set (registered s3 k1) \<and> \<not> onceFlag s3 l
           \<and> invocations l (emit_many beh k2 argss s2) \<le> invocations l s2 + 1)
       \<and> (let t1 = snd (on beh k2 None l s0);
              t2 = snd (on beh k1 (Some \<lparr>once = True\<rparr>) l t1);
              t3 = snd (EMIT beh k2 args t2)
          in l \<in> set (registered t2 k2) \<and> l \<notin> set (registered t3 k2)
           \<and> l \<in> set (registered t3 k1) \<and> \<not> onceFlag t3 l)
       \<and> \<not> onceFlag (off k l s) l
       \<and> (let u1 = snd (on beh k1 (Some \<lparr>once = True\<rparr>) l s0);
              u2 = off k2 l u1;
              u3 = snd (EMIT beh k1 args u2)
          in onceFlag u1 l \<and> \<not> onceFlag u2 l \<and> l \<in> set (registered u3 k1))"
proof -
  let ?s1 = "snd (on beh k1 (Some \<lparr>once = True\<rparr>) l s0)"
  let ?s2 = "snd (on beh k2 None l ?s1)"
  have d: "sets_distinct ?s2"
    using assms(2) by (intro on_sets_distinct)
  have f: "onceFlag ?s2 l" by (simp add: on_onceFlag)
  have r: "l \<in> set (registered ?s2 k2)" by (simp add: on_registered)
  have a: "invocations l (emit_many beh k2 argss ?s2) \<le> invocations l ?s2 + 1"
    using emit_many_once[OF d f r, where beh=beh and argss=argss] by simp
  have b: "l \<in> set (registered ?s1 k1)" by (simp add: on_registered)
  show ?thesis
    using assms(1) a b
    by (simp add: Let_def on_registered on_onceFlag EMIT_registered EMIT_onceFlag)
qed

theorem once_flag_is_per_listener_witness:
  "''pong'' \<noteq> ''ping''
 \<and> sets_distinct demo_emitter
 \<and> (let s1 = snd (on demo_listeners ''pong'' (Some \<lparr>once = True\<rparr>) 0 demo_emitter);
         s2 = snd (on demo_listeners ''ping'' None 0 s1);
         s3 = snd (EMIT demo_listeners ''ping'' [7] s2)
     in registered s2 ''ping'' = [0, 1, 2] \<and> registered s3 ''ping'' = [2]
      \<and> registered s3 ''pong'' = [0] \<and> \<not> onceFlag s3 0)
 \<and> \<not> onceFlag (off ''none'' 1 demo_emitter) 1"
proof -
  have h1: "''pong'' \<noteq> ''ping''" by simp
  have h2: "sets_distinct demo_emitter"
    by (simp add: sets_distinct_def registered_def demo_emitter_def)
  have r: "registered demo_emitter ''ping'' = [0, 1, 2]" "registered demo_emitter ''pong'' = []"
    by (simp_all add: registered_def demo_emitter_def)
  have f: "onceFlag demo_emitter = (\<lambda>l. l = 1)"
    by (simp add: demo_emitter_def)
  show ?thesis
    using h1 h2
      once_flag_is_per_listener [OF h1 h2, where beh = demo_listeners and l = 0 and args = "[7]"
        and argss = "[[7]]"]
      once_flag_is_per_listener [OF h1 h2, where k = "''none''" and l = 1 and s = demo_emitter]
    by (simp add: Let_def on_registered on_onceFlag EMIT_registered EMIT_onceFlag r f Set_add_def)
qed

text \<open>
  C9. In immediate mode the replay inside \<open>on\<close> does not use up the fire-once flag. When
  signal \<open>k\<close> has recorded arguments \<open>a\<close>, subscribing \<open>l\<close> to \<open>k\<close> with \<open>once\<close> invokes \<open>l\<close>
  with \<open>a\<close> during \<open>on\<close> and leaves it registered and flagged; the next emission of \<open>k\<close>
  invokes it again, with the emitted arguments, and only then removes it: two invocations.
\<close>

theorem immediate_replay_keeps_once_flag:
  assumes "sets_distinct s" and "lastArgs s = Some m" and "m k = Some a"
  shows "(let s1 = snd (on beh k (Some \<lparr>once = True\<rparr>) l s);
              s2 = snd (EMIT beh k args s1)
          in calls s1 = calls s @ [(l, a)]
           \<and> l \<in> set (registered s1 k)
           \<and> onceFlag s1 l
           \<and> calls s2 = calls s1 @ map (\<lambda>x. (x, args)) (registered s1 k)
           \<and> invocations l s1 = invocations l s + 1
           \<and> invocations l s2 = invocations l s + 2
           \<and> l \<notin> set (registered s2 k))"
proof -
  let ?s1 = "snd (on beh k (Some \<lparr>once = True\<rparr>) l s)"
  have d: "sets_distinct ?s1" using assms(1) by (rule on_sets_distinct)
  have c: "calls ?s1 = calls s @ [(l, a)]" using assms(2,3) by (simp add: on_calls)
  have f: "onceFlag ?s1 l" by (simp add: on_onceFlag)
  have r: "l \<in> set (registered ?s1 k)" by (simp add: on_registered)
  have i1: "invocations l ?s1 = invocations l s + 1" by (simp add: invocations_def c)
  have i2: "invocations l (snd (EMIT beh k args ?s1)) = invocations l ?s1 + 1"
    using d r by (simp add: EMIT_invocations)
  have n: "l \<notin> set (registered (snd (EMIT beh k args ?s1)) k)"
    using f by (simp add: EMIT_registered)
  show ?thesis
    using c f r i1 i2 n by (simp add: Let_def EMIT_calls)
qed

theorem immediate_replay_keeps_once_flag_witness:
  "sets_distinct demo_emitter
 \<and> lastArgs demo_emitter = Some [''ping'' \<mapsto> [42]]
 \<and> [''ping'' \<mapsto> [42::int]] ''ping'' = Some [42]
 \<and> (let s1 = snd (on demo_listeners ''ping'' (Some \<lparr>once = True\<rparr>) 5 demo_emitter);
         s2 = snd (EMIT demo_listeners ''ping'' [7] s1)
     in calls s1 = [(5, [42])]
      \<and> registered s1 ''ping'' = [0, 1, 2, 5]
      \<and> calls s2 = [(5, [42]), (0, [7]), (1, [7]), (2, [7]), (5, [7])]
      \<and> invocations 5 s2 = 2
      \<and> registered s2 ''ping'' = [0, 2])"
proof -
  have h1: "sets_distinct demo_emitter"
    by (simp add: sets_distinct_def registered_def demo_emitter_def)
  have h2: "lastArgs demo_emitter = Some [''ping'' \<mapsto> [42]]"
    by (simp add: demo_emitter_def)
  have h3: "[''ping'' \<mapsto> [42::int]] ''ping'' = Some [42]" by simp
  have r: "registered demo_emitter ''ping'' = [0, 1, 2]"
    by (simp add: registered_def demo_emitter_def)
  have f: "onceFlag demo_emitter = (\<lambda>l. l = 1)" "calls demo_emitter = []"
    by (simp_all add: demo_emitter_def)
  have i: "invocations 5 demo_emitter = 0" by (simp add: invocations_def f)
  show ?thesis
    using h1 h2 h3
      immediate_replay_keeps_once_flag [where s = demo_emitter and m = "[''ping'' \<mapsto> [42]]"
        and k = "''ping''" and a = "[42]" and beh = demo_listeners and l = 5 and args = "[7]",
        OF h1 h2 h3]
    by (simp add: Let_def on_registered on_onceFlag EMIT_registered r f i Set_add_def)
qed

text \<open>
  C10. The replay inside \<open>on\<close> is not guarded. When signal \<open>k\<close> has recorded arguments \<open>a\<close>
  and listener \<open>l\<close> throws \<open>e\<close> on them, the call of \<open>on\<close>, also when made through a
  controller that is not destroyed, throws \<open>e\<close>; the listener has been called and stays
  registered; the \<open>onError\<close> callback is not called and nothing is logged. The same
  listener throwing in a dispatch is caught: \<open>emit\<close> returns, and \<open>e\<close> is among the
  failures that the dispatch returns.
\<close>

theorem immediate_replay_throw_propagates:
  assumes "\<not> destroyed c" and "lastArgs (emitter c) = Some m" and "m k = Some a"
      and "beh l a = Some e"
  shows "fst (on beh k opts l (emitter c)) = Inl e
       \<and> fst (emitter_on beh k opts l c) = Inl e
       \<and> calls (emitter (snd (emitter_on beh k opts l c))) = calls (emitter c) @ [(l, a)]
       \<and> l \<in> set (registered (emitter (snd (emitter_on beh k opts l c))) k)
       \<and> reported (snd (emitter_on beh k opts l c)) = reported c
       \<and> console (snd (emitter_on beh k opts l c)) = console c
       \<and> e \<in> set (snd (fst (EMIT beh k a (snd (on beh k opts l (emitter c))))))"
proof -
  have "fst (on beh k opts l (emitter c)) = Inl e"
    using assms(2,3,4) by (simp add: on_result)
  moreover have "e \<in> set (snd (fst (EMIT beh k a (snd (on beh k opts l (emitter c))))))"
  proof -
    let ?s1 = "snd (on beh k opts l (emitter c))"
    have r: "l \<in> set (registered ?s1 k)" by (simp add: on_registered)
    then have ls: "listeners ?s1 k = Some (registered ?s1 k)"
      by (cases "listeners ?s1 k") (simp_all add: registered_def)
    have "e \<in> set (thrown beh a l)" using assms(4) by (simp add: thrown_def)
    then show ?thesis using r by (auto simp: EMIT_result ls)
  qed
  ultimately show ?thesis
    using assms(2,3) emitter_on_active[OF assms(1), of beh k opts l]
    by (simp add: on_calls on_registered)
qed

theorem immediate_replay_throw_propagates_witness:
  "(let c = demo_controller\<lparr>emitter := demo_emitter\<rparr> in
      \<not> destroyed c
    \<and> lastArgs (emitter c) = Some [''ping'' \<mapsto> [42]]
    \<and> [''ping'' \<mapsto> [42::int]] ''ping'' = Some [42]
    \<and> demo_listeners 2 [42] = Some ''bang''
    \<and> fst (emitter_on demo_listeners ''ping'' None 2 c) = Inl ''bang''
    \<and> reported (snd (emitter_on demo_listeners ''ping'' None 2 c)) = []
    \<and> console (snd (emitter_on demo_listeners ''ping'' None 2 c)) = [])"
proof -
  let ?c = "demo_controller\<lparr>emitter := demo_emitter\<rparr>"
  have h1: "\<not> destroyed ?c" by (simp add: demo_controller_def SignalController_def)
  have h2: "lastArgs (emitter ?c) = Some [''ping'' \<mapsto> [42]]"
    by (simp add: demo_emitter_def)
  have h3: "[''ping'' \<mapsto> [42::int]] ''ping'' = Some [42]" by simp
  have h4: "demo_listeners 2 [42] = Some ''bang''" by (simp add: demo_listeners_def)
  have rc: "reported ?c = []" "console ?c = []"
    by (simp_all add: demo_controller_def SignalController_def)
  show ?thesis
    using h1 h2 h3 h4
      immediate_replay_throw_propagates [where c = "?c" and m = "[''ping'' \<mapsto> [42]]"
        and k = "''ping''" and a = "[42]" and beh = demo_listeners and l = 2 and e = "''bang''"
        and opts = None, OF h1 h2 h3 h4]
    by (simp add: Let_def rc)
qed

end
